theory Spec2Isabelle
  imports Main
begin

section \<open>The App component of frontend/src/App.js\<close>

text \<open>
  The component keeps its session in React state variables and is driven by events:
  clicks, the expiry of the 5000 ms timeout armed by the \<open>webcamActive\<close> effect, and the
  settling of an \<open>axios.post\<close> promise. Each event handler is a function on the state;
  an \<open>async\<close> function is split at its \<open>await\<close> into the part that runs at the call and
  the part that runs when the promise settles. The browser's timer queue, the requests
  awaiting a reply, the log of requests posted and the number of screenshots taken are
  part of the state, so that what the component does to the outside can be stated. The
  teardown of the component, which runs the effect's cleanup and discards the state
  variables, is modelled on top of that.
\<close>

subsection \<open>Data\<close>

text \<open>A song as the render function reads it (lines 303-340).\<close>

record song =
  name :: string
  artist :: string
  url :: string
  album_image :: "string option"
  artist_image :: "string option"

text \<open>
  A JavaScript string that may be \<open>undefined\<close> is a \<open>string option\<close>, with \<open>None\<close> for
  \<open>undefined\<close>. The fields the code reads from a JSON object: \<open>emotion\<close>, \<open>songs\<close> and
  \<open>details\<close>; a field the object lacks reads as \<open>undefined\<close>.
\<close>

record data =
  data_emotion :: "string option"
  data_songs :: "song list option"
  data_details :: "string option"

text \<open>
  \<open>res.data\<close> of a resolved request: a JSON object, JSON \<open>null\<close>, or the empty string
  that axios gives for a response without a body (a 204 or 205 carries none).
\<close>

datatype body = JsonObject data | JsonNull | NoBody

text \<open>
  What comes back for a posted request: an HTTP response with its status and body, or no
  response at all. \<open>axios.post\<close> resolves on a status in 200..299 and rejects otherwise.
\<close>

datatype reply = Response nat body | NetworkError

datatype js_error = TypeError | AxiosError

definition axios_post :: "reply \<Rightarrow> js_error + body" where
  "axios_post r =
     (case r of
        NetworkError \<Rightarrow> Inl AxiosError
      | Response status b \<Rightarrow>
          if 200 \<le> status \<and> status < 300 then Inr b else Inl AxiosError)"

text \<open>
  The reads \<open>res.data.emotion\<close>, \<open>res.data.songs\<close> and \<open>res.data.details\<close>: on \<open>null\<close>
  the first of them throws, before any setter has run; on the empty string all three
  are \<open>undefined\<close>.
\<close>

definition response_data :: "body \<Rightarrow> js_error + data" where
  "response_data b =
     (case b of
        JsonObject d \<Rightarrow> Inr d
      | JsonNull \<Rightarrow> Inl TypeError
      | NoBody \<Rightarrow> Inr \<lparr>data_emotion = None, data_songs = None, data_details = None\<rparr>)"

text \<open>The \<open>try\<close> block up to its first setter: the awaited post, then the reads.\<close>

definition try_post :: "reply \<Rightarrow> js_error + data" where
  "try_post r = (case axios_post r of Inl e \<Rightarrow> Inl e | Inr b \<Rightarrow> response_data b)"

text \<open>The two requests: POST /text-emotion with the text, POST /face-emotion with the image.\<close>

datatype request = TextEmotion string | FaceEmotion string

text \<open>
  The state variables of lines 64-70, then the environment: \<open>timeout\<close> is the variable
  of that name held by the cleanup closure of the last effect run, \<open>timers\<close> the handles
  of the timeouts set and neither fired nor cleared, \<open>inflight\<close> the requests awaiting
  their reply, \<open>posted\<close> every request sent so far and \<open>screenshots\<close> the number of calls
  of \<open>getScreenshot\<close>.
\<close>

record app_state =
  text_st :: string
  emotion :: "string option"
  songs :: "song list"
  details :: "string option"
  loading :: bool
  webcamActive :: bool
  darkMode :: bool
  timeout :: "nat option"
  timers :: "nat list"
  nextTimer :: nat
  inflight :: "request list"
  posted :: "request list"
  screenshots :: nat

definition initial :: app_state where
  "initial =
     \<lparr>text_st = [], emotion = Some [], songs = [], details = Some [], loading = False,
      webcamActive = False, darkMode = False, timeout = None, timers = [],
      nextTimer = 0, inflight = [], posted = [], screenshots = 0\<rparr>"

subsection \<open>Timers and the webcamActive effect (lines 121-130)\<close>

definition setTimeout :: "app_state \<Rightarrow> nat \<times> app_state" where
  "setTimeout s =
     (nextTimer s, s\<lparr>timers := timers s @ [nextTimer s], nextTimer := Suc (nextTimer s)\<rparr>)"

definition clearTimeout :: "nat option \<Rightarrow> app_state \<Rightarrow> app_state" where
  "clearTimeout h s =
     (case h of None \<Rightarrow> s | Some k \<Rightarrow> s\<lparr>timers := removeAll k (timers s)\<rparr>)"

text \<open>The function the effect returns: \<open>() => clearTimeout(timeout)\<close>.\<close>

definition effect_cleanup :: "app_state \<Rightarrow> app_state" where
  "effect_cleanup s = clearTimeout (timeout s) s"

text \<open>The effect body, with a fresh \<open>timeout\<close> variable.\<close>

definition effect_body :: "app_state \<Rightarrow> app_state" where
  "effect_body s =
     (if webcamActive s
      then (let (h, s') = setTimeout (s\<lparr>loading := True\<rparr>) in s'\<lparr>timeout := Some h\<rparr>)
      else s\<lparr>timeout := None\<rparr>)"

text \<open>
  After a handler has run the component renders again; the effect depends on
  \<open>[webcamActive]\<close>, so when that value differs from the one of the previous render the
  old cleanup runs and then the body.
\<close>

definition rerender :: "bool \<Rightarrow> app_state \<Rightarrow> app_state" where
  "rerender prev s = (if webcamActive s \<noteq> prev then effect_body (effect_cleanup s) else s)"

subsection \<open>analyzeText (lines 76-93)\<close>

definition analyzeText :: "app_state \<Rightarrow> app_state" where
  "analyzeText s =
     s\<lparr>loading := True, emotion := Some [], songs := [], details := Some [],
       inflight := inflight s @ [TextEmotion (text_st s)],
       posted := posted s @ [TextEmotion (text_st s)]\<rparr>"

definition analyzeText_settled :: "reply \<Rightarrow> app_state \<Rightarrow> app_state" where
  "analyzeText_settled r s =
     (case try_post r of
        Inr d \<Rightarrow>
          s\<lparr>emotion := data_emotion d,
            songs := (case data_songs d of None \<Rightarrow> [] | Some xs \<Rightarrow> xs),
            details := data_details d\<rparr>
      | Inl e \<Rightarrow>
          s\<lparr>emotion := Some ''neutral'', songs := [],
            details := Some ''Error occurred while analyzing text''\<rparr>)
     \<lparr>loading := False\<rparr>"

subsection \<open>analyzeFace (lines 95-119)\<close>

text \<open>
  \<open>webcamRef.current\<close> is the Webcam element, which is rendered only while
  \<open>webcamActive\<close> holds (lines 226-240); otherwise it is null and the call of
  \<open>getScreenshot\<close> on it throws. The argument is what \<open>getScreenshot\<close> returns: a data
  URI, or null when no frame is available. \<open>!imageSrc\<close> holds for null and for the
  empty string.
\<close>

definition analyzeFace :: "string option \<Rightarrow> app_state \<Rightarrow> js_error + app_state" where
  "analyzeFace shot s =
     (let s1 = s\<lparr>loading := True, emotion := Some [], songs := [], details := Some []\<rparr>
      in if \<not> webcamActive s1 then Inl TypeError
         else
           (let s2 = s1\<lparr>screenshots := Suc (screenshots s1)\<rparr>
            in case shot of
                 None \<Rightarrow>
                   Inr (s2\<lparr>loading := False,
                            details := Some ''Failed to capture image from webcam''\<rparr>)
               | Some imageSrc \<Rightarrow>
                   if imageSrc = []
                   then Inr (s2\<lparr>loading := False,
                                 details := Some ''Failed to capture image from webcam''\<rparr>)
                   else Inr (s2\<lparr>inflight := inflight s2 @ [FaceEmotion imageSrc],
                                 posted := posted s2 @ [FaceEmotion imageSrc]\<rparr>)))"

definition analyzeFace_settled :: "reply \<Rightarrow> app_state \<Rightarrow> app_state" where
  "analyzeFace_settled r s =
     (case try_post r of
        Inr d \<Rightarrow>
          s\<lparr>emotion := data_emotion d,
            songs := (case data_songs d of None \<Rightarrow> [] | Some xs \<Rightarrow> xs),
            details := data_details d\<rparr>
      | Inl e \<Rightarrow>
          s\<lparr>emotion := Some ''neutral'', songs := [],
            details := Some ''Error occurred while analyzing face''\<rparr>)
     \<lparr>loading := False, webcamActive := False\<rparr>"

subsection \<open>The other handlers\<close>

definition toggleDarkMode :: "app_state \<Rightarrow> app_state" where
  "toggleDarkMode s = s\<lparr>darkMode := \<not> darkMode s\<rparr>"

text \<open>The Scan Face button's \<open>onClick\<close>: \<open>setWebcamActive(!webcamActive)\<close>, then the render.\<close>

definition scanFace_onClick :: "app_state \<Rightarrow> app_state" where
  "scanFace_onClick s = rerender (webcamActive s) (s\<lparr>webcamActive := \<not> webcamActive s\<rparr>)"

text \<open>The \<open>disabled\<close> attributes of the two buttons (lines 206 and 219).\<close>

definition analyzeText_disabled :: "app_state \<Rightarrow> bool" where
  "analyzeText_disabled s = (loading s \<or> text_st s = [])"

definition scanFace_disabled :: "app_state \<Rightarrow> bool" where
  "scanFace_disabled s = loading s"

subsection \<open>Events\<close>

text \<open>
  Events are handled one at a time: a handler, the render it causes and the effect of
  that render are over before the next event. A click on a disabled button does nothing.
  A timeout fires only while its handle is pending, and then leaves the queue; a reply
  arrives only for a request in flight. An event that cannot occur in a state leaves the
  state as it is.
\<close>

datatype event =
    ChangeText string
  | ToggleDarkMode
  | ClickAnalyzeText
  | ClickScanFace
  | TimeoutFires nat "string option"
  | Replies request reply

fun step :: "event \<Rightarrow> app_state \<Rightarrow> js_error + app_state" where
  "step (ChangeText t) s = Inr (s\<lparr>text_st := t\<rparr>)"
| "step ToggleDarkMode s = Inr (toggleDarkMode s)"
| "step ClickAnalyzeText s =
     (if analyzeText_disabled s then Inr s else Inr (analyzeText s))"
| "step ClickScanFace s =
     (if scanFace_disabled s then Inr s else Inr (scanFace_onClick s))"
| "step (TimeoutFires h shot) s =
     (if h \<in> set (timers s)
      then analyzeFace shot (s\<lparr>timers := removeAll h (timers s)\<rparr>)
      else Inr s)"
| "step (Replies q r) s =
     (if q \<in> set (inflight s)
      then (let s' = s\<lparr>inflight := remove1 q (inflight s)\<rparr>
            in case q of
                 TextEmotion t \<Rightarrow> Inr (analyzeText_settled r s')
               | FaceEmotion i \<Rightarrow>
                   Inr (rerender (webcamActive s') (analyzeFace_settled r s')))
      else Inr s)"

text \<open>A sequence of events, stopping at the first exception.\<close>

fun run :: "event list \<Rightarrow> app_state \<Rightarrow> js_error + app_state" where
  "run [] s = Inr s"
| "run (e # es) s = (case step e s of Inl x \<Rightarrow> Inl x | Inr s' \<Rightarrow> run es s')"

subsection \<open>Teardown\<close>

text \<open>
  When the component is unmounted React runs the cleanup of the effect and discards the
  state variables. What is left is outside the component: the timer queue, the requests
  in flight, the log of requests posted and the screenshots taken.
\<close>

record outside =
  o_timers :: "nat list"
  o_inflight :: "request list"
  o_posted :: "request list"
  o_screenshots :: nat

definition unmount :: "app_state \<Rightarrow> outside" where
  "unmount s =
     (let s' = effect_cleanup s
      in \<lparr>o_timers = timers s', o_inflight = inflight s', o_posted = posted s',
          o_screenshots = screenshots s'\<rparr>)"

text \<open>
  After the teardown there is nothing to click. A reply to a request still in flight
  settles the promise, and the setters the continuation calls update nothing. A timeout
  still pending would run \<open>analyzeFace\<close> with \<open>webcamRef.current\<close> null, which throws.
\<close>

fun unmounted_step :: "event \<Rightarrow> outside \<Rightarrow> js_error + outside" where
  "unmounted_step (TimeoutFires h shot) w =
     (if h \<in> set (o_timers w) then Inl TypeError else Inr w)"
| "unmounted_step (Replies q r) w =
     (if q \<in> set (o_inflight w)
      then Inr (w\<lparr>o_inflight := remove1 q (o_inflight w)\<rparr>)
      else Inr w)"
| "unmounted_step e w = Inr w"

datatype component = Mounted app_state | Unmounted outside

datatype life_event = Happens event | Teardown

fun life_step :: "life_event \<Rightarrow> component \<Rightarrow> js_error + component" where
  "life_step (Happens e) (Mounted s) =
     (case step e s of Inl x \<Rightarrow> Inl x | Inr s' \<Rightarrow> Inr (Mounted s'))"
| "life_step Teardown (Mounted s) = Inr (Unmounted (unmount s))"
| "life_step (Happens e) (Unmounted w) =
     (case unmounted_step e w of Inl x \<Rightarrow> Inl x | Inr w' \<Rightarrow> Inr (Unmounted w'))"
| "life_step Teardown (Unmounted w) = Inr (Unmounted w)"

fun life_run :: "life_event list \<Rightarrow> component \<Rightarrow> js_error + component" where
  "life_run [] c = Inr c"
| "life_run (e # es) c = (case life_step e c of Inl x \<Rightarrow> Inl x | Inr c' \<Rightarrow> life_run es c')"

text \<open>
  The session the component shows: \<open>loading\<close>, \<open>emotion\<close>, \<open>songs\<close> and \<open>details\<close>
  while it is mounted, nothing afterwards.
\<close>

fun session :: "component \<Rightarrow> (bool \<times> string option \<times> song list \<times> string option) option" where
  "session (Mounted s) = Some (loading s, emotion s, songs s, details s)"
| "session (Unmounted w) = None"

subsection \<open>Sample data\<close>

text \<open>A reply body with one song, and one without the \<open>songs\<close> field.\<close>

definition song_A :: song where
  "song_A =
     \<lparr>name = ''Song A'', artist = ''Artist A'', url = ''http://x'',
      album_image = None, artist_image = None\<rparr>"

definition happy_data :: data where
  "happy_data =
     \<lparr>data_emotion = Some ''happy'', data_songs = Some [song_A],
      data_details = Some ''Upbeat vibes''\<rparr>"

definition bare_data :: data where
  "bare_data = \<lparr>data_emotion = Some ''calm'', data_songs = None, data_details = Some ''Quiet''\<rparr>"

text \<open>
  The state after a click on Scan Face in the initial state and the firing of the timeout
  with the frame \<open>img\<close>: the request is in flight.
\<close>

definition dispatched :: app_state where
  "dispatched =
     initial\<lparr>loading := True, webcamActive := True, timeout := Some 0, nextTimer := 1,
       inflight := [FaceEmotion ''img''], posted := [FaceEmotion ''img''], screenshots := 1\<rparr>"

subsection \<open>The invariant of the reachable states\<close>

text \<open>
  At most one timeout is pending, and it is the one the effect's cleanup holds; while it
  is pending the component is loading with the webcam shown and no request in flight; at
  most one request is in flight, and then the component is loading; no request was ever
  posted with an empty text or image.
\<close>

definition invar :: "app_state \<Rightarrow> bool" where
  "invar s \<longleftrightarrow>
     (timers s = [] \<or> map Some (timers s) = [timeout s]) \<and>
     (timers s \<noteq> [] \<longrightarrow> loading s \<and> webcamActive s \<and> inflight s = []) \<and>
     (inflight s \<noteq> [] \<longrightarrow> loading s) \<and>
     length (inflight s) \<le> 1 \<and>
     TextEmotion [] \<notin> set (posted s) \<and> FaceEmotion [] \<notin> set (posted s)"

section \<open>The invariant holds in every reachable state\<close>

lemma inv_initial: "invar initial"
  by (simp add: invar_def initial_def)

lemma inv_idle: "invar s \<Longrightarrow> \<not> loading s \<Longrightarrow> timers s = [] \<and> inflight s = []"
  by (auto simp: invar_def)

lemma inv_armed:
  "invar s \<Longrightarrow> h \<in> set (timers s) \<Longrightarrow>
     timers s = [h] \<and> timeout s = Some h \<and> loading s \<and> webcamActive s \<and> inflight s = []"
  by (cases "timers s") (auto simp: invar_def)

lemma inv_awaiting:
  "invar s \<Longrightarrow> q \<in> set (inflight s) \<Longrightarrow> inflight s = [q] \<and> loading s \<and> timers s = []"
  by (cases "inflight s") (auto simp: invar_def)

lemma inv_analyzeText:
  assumes "invar s" and "\<not> analyzeText_disabled s"
  shows "invar (analyzeText s)"
proof -
  from assms(2) have en: "\<not> loading s" "text_st s \<noteq> []"
    by (simp_all add: analyzeText_disabled_def)
  from assms(1) en(1) have "timers s = [] \<and> inflight s = []"
    by (rule inv_idle)
  with assms(1) en show ?thesis
    by (simp add: invar_def analyzeText_def)
qed

lemma inv_scanFace_onClick:
  assumes "invar s" and "\<not> scanFace_disabled s"
  shows "invar (scanFace_onClick s)"
proof -
  from assms(2) have "\<not> loading s" by (simp add: scanFace_disabled_def)
  with assms(1) have "timers s = [] \<and> inflight s = []" by (rule inv_idle)
  with assms(1) show ?thesis
    by (simp add: invar_def scanFace_onClick_def rerender_def effect_body_def effect_cleanup_def
        clearTimeout_def setTimeout_def split: option.splits)
qed

lemma analyzeFace_returns:
  "webcamActive s \<Longrightarrow> \<exists>s'. analyzeFace shot s = Inr s'"
  by (simp add: analyzeFace_def Let_def split: option.splits)

lemma inv_analyzeFace:
  assumes "invar s" and "timers s = []" and "inflight s = []" and "analyzeFace shot s = Inr s'"
  shows "invar s'"
  using assms
  by (auto simp: invar_def analyzeFace_def Let_def split: if_splits option.splits)

lemma inv_analyzeText_settled:
  assumes "invar s" and "timers s = []" and "inflight s = []"
  shows "invar (analyzeText_settled r s)"
  using assms by (simp add: invar_def analyzeText_settled_def split: sum.splits)

lemma inv_analyzeFace_settled:
  assumes "invar s" and "timers s = []" and "inflight s = []"
  shows "invar (rerender b (analyzeFace_settled r s))"
  using assms
  by (simp add: invar_def analyzeFace_settled_def rerender_def effect_body_def
      effect_cleanup_def clearTimeout_def split: sum.splits option.splits)

lemma inv_drop_inflight: "invar s \<Longrightarrow> invar (s\<lparr>inflight := []\<rparr>)"
  by (simp add: invar_def)

lemma inv_drop_timers: "invar s \<Longrightarrow> invar (s\<lparr>timers := []\<rparr>)"
  by (simp add: invar_def)

lemma step_returns:
  assumes "invar s"
  shows "\<exists>s'. step e s = Inr s'"
proof (cases e)
  case (TimeoutFires h shot)
  show ?thesis
  proof (cases "h \<in> set (timers s)")
    case True
    with assms have "timers s = [h] \<and> timeout s = Some h \<and> loading s \<and> webcamActive s \<and> inflight s = []"
      by (rule inv_armed)
    then have "webcamActive (s\<lparr>timers := removeAll h (timers s)\<rparr>)" by simp
    then obtain s' where "analyzeFace shot (s\<lparr>timers := removeAll h (timers s)\<rparr>) = Inr s'"
      using analyzeFace_returns by blast
    with TimeoutFires True show ?thesis by simp
  next
    case False
    with TimeoutFires show ?thesis by simp
  qed
next
  case (Replies q r)
  then show ?thesis by (cases q) (simp_all add: Let_def)
qed simp_all

lemma inv_step:
  assumes "invar s" and "step e s = Inr s'"
  shows "invar s'"
proof (cases e)
  case (ChangeText t)
  with assms show ?thesis by (auto simp: invar_def)
next
  case ToggleDarkMode
  with assms show ?thesis by (auto simp: invar_def toggleDarkMode_def)
next
  case ClickAnalyzeText
  with assms show ?thesis
    by (cases "analyzeText_disabled s") (auto intro: inv_analyzeText)
next
  case ClickScanFace
  with assms show ?thesis
    by (cases "scanFace_disabled s") (auto intro: inv_scanFace_onClick)
next
  case (TimeoutFires h shot)
  show ?thesis
  proof (cases "h \<in> set (timers s)")
    case False
    with assms TimeoutFires show ?thesis by simp
  next
    case True
    with assms(1) have "timers s = [h] \<and> timeout s = Some h \<and> loading s \<and> webcamActive s \<and> inflight s = []"
      by (rule inv_armed)
    then have armed: "timers s = [h]" "inflight s = []" by simp_all
    from True armed assms(2) TimeoutFires
    have "analyzeFace shot (s\<lparr>timers := []\<rparr>) = Inr s'" by simp
    moreover have "invar (s\<lparr>timers := []\<rparr>)" using assms(1) by (rule inv_drop_timers)
    ultimately show ?thesis using armed by (auto intro: inv_analyzeFace)
  qed
next
  case (Replies q r)
  show ?thesis
  proof (cases "q \<in> set (inflight s)")
    case False
    with assms Replies show ?thesis by simp
  next
    case True
    with assms(1) have "inflight s = [q] \<and> loading s \<and> timers s = []"
      by (rule inv_awaiting)
    then have one: "inflight s = [q]" and tm: "timers s = []" by simp_all
    have idle: "invar (s\<lparr>inflight := []\<rparr>)" using assms(1) by (rule inv_drop_inflight)
    show ?thesis
    proof (cases q)
      case (TextEmotion t)
      with assms(2) Replies one have "s' = analyzeText_settled r (s\<lparr>inflight := []\<rparr>)"
        by simp
      with idle tm show ?thesis by (simp add: inv_analyzeText_settled)
    next
      case (FaceEmotion i)
      with assms(2) Replies one
      have "s' = rerender (webcamActive s) (analyzeFace_settled r (s\<lparr>inflight := []\<rparr>))"
        by simp
      with idle tm show ?thesis by (simp add: inv_analyzeFace_settled)
    qed
  qed
qed

lemma inv_run: "invar s \<Longrightarrow> run es s = Inr s' \<Longrightarrow> invar s'"
proof (induction es arbitrary: s)
  case Nil
  then show ?case by simp
next
  case (Cons e es)
  from Cons.prems(1) obtain t where t: "step e s = Inr t"
    using step_returns by blast
  with Cons.prems have "invar t" and "run es t = Inr s'"
    by (auto intro: inv_step)
  then show ?case by (rule Cons.IH)
qed

lemma reachable_inv: "run es initial = Inr s \<Longrightarrow> invar s"
  using inv_initial by (rule inv_run)

lemma run_returns: "invar s \<Longrightarrow> \<exists>s'. run es s = Inr s'"
proof (induction es arbitrary: s)
  case Nil
  then show ?case by simp
next
  case (Cons e es)
  from Cons.prems obtain t where t: "step e s = Inr t"
    using step_returns by blast
  with Cons.prems have "invar t" by (auto intro: inv_step)
  then obtain s' where "run es t = Inr s'" using Cons.IH by blast
  with t show ?case by simp
qed

subsection \<open>What a reply and a failed capture do in a reachable state\<close>

lemma reply_settles:
  assumes "invar s" and "q \<in> set (inflight s)"
  shows "loading s \<and> timers s = [] \<and>
         step (Replies q r) s =
           Inr (case q of
                  TextEmotion t \<Rightarrow> analyzeText_settled r (s\<lparr>inflight := []\<rparr>)
                | FaceEmotion i \<Rightarrow>
                    rerender (webcamActive s) (analyzeFace_settled r (s\<lparr>inflight := []\<rparr>)))"
proof -
  from assms have "inflight s = [q] \<and> loading s \<and> timers s = []" by (rule inv_awaiting)
  then show ?thesis by (cases q) simp_all
qed

lemma reply_rejected:
  assumes "invar s" and "q \<in> set (inflight s)" and "axios_post r = Inl e"
  shows "loading s \<and>
         (\<exists>s'. step (Replies q r) s = Inr s' \<and> \<not> loading s' \<and>
            emotion s' = Some ''neutral'' \<and> songs s' = [] \<and>
            details s' =
              (case q of
                 TextEmotion t \<Rightarrow> Some ''Error occurred while analyzing text''
               | FaceEmotion i \<Rightarrow> Some ''Error occurred while analyzing face'') \<and>
            posted s' = posted s \<and> inflight s' = [] \<and> timers s' = [])"
proof -
  from assms(1,2) have st: "loading s \<and> timers s = [] \<and>
         step (Replies q r) s =
           Inr (case q of
                  TextEmotion t \<Rightarrow> analyzeText_settled r (s\<lparr>inflight := []\<rparr>)
                | FaceEmotion i \<Rightarrow>
                    rerender (webcamActive s) (analyzeFace_settled r (s\<lparr>inflight := []\<rparr>)))"
    by (rule reply_settles)
  show ?thesis
  proof (cases q)
    case (TextEmotion t)
    with st assms(3) show ?thesis by (simp add: analyzeText_settled_def try_post_def)
  next
    case (FaceEmotion i)
    with st assms(3) show ?thesis
      by (simp add: analyzeFace_settled_def try_post_def rerender_def effect_body_def
          effect_cleanup_def clearTimeout_def split: option.splits)
  qed
qed

lemma capture_fails:
  assumes "invar s" and "h \<in> set (timers s)" and "shot = None \<or> shot = Some []"
  shows "step (TimeoutFires h shot) s =
           Inr (s\<lparr>timers := [], loading := False, emotion := Some [], songs := [],
                  details := Some ''Failed to capture image from webcam'',
                  screenshots := Suc (screenshots s)\<rparr>)"
proof -
  from assms(1,2)
  have "timers s = [h] \<and> timeout s = Some h \<and> loading s \<and> webcamActive s \<and> inflight s = []"
    by (rule inv_armed)
  with assms(3) show ?thesis by (auto simp: analyzeFace_def)
qed

subsection \<open>After the teardown of a reachable state\<close>

lemma unmount_reachable:
  assumes "invar s"
  shows "o_timers (unmount s) = [] \<and> o_inflight (unmount s) = inflight s \<and>
         o_posted (unmount s) = posted s \<and> o_screenshots (unmount s) = screenshots s"
proof (cases "timers s")
  case Nil
  then show ?thesis
    by (simp add: unmount_def effect_cleanup_def clearTimeout_def Let_def split: option.splits)
next
  case (Cons k ks)
  with assms have "timers s = [k] \<and> timeout s = Some k"
    by (auto simp: invar_def)
  then show ?thesis
    by (simp add: unmount_def effect_cleanup_def clearTimeout_def Let_def)
qed

lemma unmounted_step_quiet:
  assumes "o_timers w = []"
  shows "\<exists>w'. unmounted_step e w = Inr w' \<and> o_timers w' = [] \<and>
           o_posted w' = o_posted w \<and> o_screenshots w' = o_screenshots w"
  using assms by (cases e) simp_all

lemma unmounted_quiet:
  "o_timers w = [] \<Longrightarrow>
     \<exists>w'. life_run evs (Unmounted w) = Inr (Unmounted w') \<and> o_timers w' = [] \<and>
       o_posted w' = o_posted w \<and> o_screenshots w' = o_screenshots w"
proof (induction evs arbitrary: w)
  case Nil
  then show ?case by simp
next
  case (Cons ev evs)
  show ?case
  proof (cases ev)
    case Teardown
    with Cons show ?thesis by simp
  next
    case (Happens e)
    from Cons.prems obtain w1 where w1: "unmounted_step e w = Inr w1" "o_timers w1 = []"
      "o_posted w1 = o_posted w" "o_screenshots w1 = o_screenshots w"
      using unmounted_step_quiet by blast
    from Cons.IH [OF w1(2)] obtain w' where
      "life_run evs (Unmounted w1) = Inr (Unmounted w') \<and> o_timers w' = [] \<and>
       o_posted w' = o_posted w1 \<and> o_screenshots w' = o_screenshots w1" by blast
    with w1 Happens show ?thesis by simp
  qed
qed

section \<open>The claims\<close>

lemmas handler_defs =
  analyzeText_disabled_def scanFace_disabled_def analyzeText_def analyzeText_settled_def
  analyzeFace_def analyzeFace_settled_def toggleDarkMode_def scanFace_onClick_def
  rerender_def effect_body_def effect_cleanup_def clearTimeout_def setTimeout_def
  axios_post_def try_post_def response_data_def

subsection \<open>Loading with the previous result still in the state\<close>

text \<open>
  Claim C1: whenever an analysis is pending (\<open>loading\<close>), the song list is empty and the
  emotion label is cleared, in particular right after capture activation and for the
  whole 5000 ms window. \<open>analyzeText\<close> and \<open>analyzeFace\<close> clear the three result fields
  together with \<open>setLoading(true)\<close>, but the effect that arms the timeout calls
  \<open>setLoading(true)\<close> alone. After scenario A (text analysed, one song returned) a click
  on Scan Face leaves the component loading, the timeout pending, and the emotion, songs
  and details of the previous result in the state.
\<close>

theorem armed_window_keeps_previous_result:
  "map_sum id (\<lambda>s. (loading s, emotion s, songs s, details s, timers s))
     (run [ChangeText ''I feel great'', ClickAnalyzeText,
           Replies (TextEmotion ''I feel great'') (Response 200 (JsonObject happy_data)),
           ClickScanFace] initial)
   = Inr (True, Some ''happy'', [song_A], Some ''Upbeat vibes'', [0])"
  by (simp add: initial_def handler_defs happy_data_def)

subsection \<open>Deactivation before the timeout fires\<close>

text \<open>
  Claim C2 says that deactivating before the 5000 ms have elapsed, by the toggle or by
  teardown, captures no frame, posts no request and puts the phase back to what it was
  before activation. The component offers no such toggle: the effect sets \<open>loading\<close> on
  activation and the button is disabled while loading, so a second click leaves the
  timeout armed and \<open>loading\<close> set, and the timeout then fires, takes the screenshot and
  posts it. After a teardown there is no session left, where there was one, not loading,
  before the activation.
\<close>

theorem toggle_or_teardown_counterexample:
  "session (Mounted initial) = Some (False, Some [], [], Some []) \<and>
   map_sum id session (life_run [Happens ClickScanFace, Teardown] (Mounted initial)) = Inr None \<and>
   map_sum id (\<lambda>s. (loading s, timers s)) (run [ClickScanFace, ClickScanFace] initial)
     = Inr (True, [0]) \<and>
   map_sum id (\<lambda>s. (screenshots s, posted s))
     (run [ClickScanFace, ClickScanFace, TimeoutFires 0 (Some ''img'')] initial)
     = Inr (1, [FaceEmotion ''img''])"
  by (simp add: initial_def handler_defs unmount_def)

text \<open>
  Claim C2, amended: in every reachable state with the timeout pending the component is
  loading and a click on Scan Face changes nothing; a teardown clears the timeout, and
  whatever happens afterwards no screenshot is taken and no request is posted. The state
  variables are discarded with the component, so no phase is restored.
\<close>

theorem teardown_before_expiry:
  assumes "run es initial = Inr s" and "h \<in> set (timers s)"
  shows "loading s \<and> step ClickScanFace s = Inr s \<and>
         (\<exists>w. life_run (Teardown # evs) (Mounted s) = Inr (Unmounted w) \<and>
            o_timers w = [] \<and> o_posted w = posted s \<and> o_screenshots w = screenshots s)"
proof -
  from assms(1) have i: "invar s" by (rule reachable_inv)
  then have "timers s = [h] \<and> timeout s = Some h \<and> loading s \<and> webcamActive s \<and> inflight s = []"
    using assms(2) by (rule inv_armed)
  then have l: "loading s" and c: "step ClickScanFace s = Inr s"
    by (simp_all add: scanFace_disabled_def)
  from i have u: "o_timers (unmount s) = [] \<and> o_inflight (unmount s) = inflight s \<and>
         o_posted (unmount s) = posted s \<and> o_screenshots (unmount s) = screenshots s"
    by (rule unmount_reachable)
  then obtain w where "life_run evs (Unmounted (unmount s)) = Inr (Unmounted w) \<and> o_timers w = [] \<and>
       o_posted w = o_posted (unmount s) \<and> o_screenshots w = o_screenshots (unmount s)"
    using unmounted_quiet [of "unmount s" evs] by blast
  with u have "life_run (Teardown # evs) (Mounted s) = Inr (Unmounted w) \<and>
            o_timers w = [] \<and> o_posted w = posted s \<and> o_screenshots w = screenshots s"
    by simp
  with l c show ?thesis by blast
qed

theorem teardown_before_expiry_witness:
  "run [ClickScanFace] initial = Inr (scanFace_onClick initial) \<and>
   0 \<in> set (timers (scanFace_onClick initial)) \<and>
   loading (scanFace_onClick initial) \<and>
   step ClickScanFace (scanFace_onClick initial) = Inr (scanFace_onClick initial) \<and>
   (\<exists>w. life_run [Teardown, Happens (TimeoutFires 0 (Some ''img'')), Happens ClickScanFace]
          (Mounted (scanFace_onClick initial)) = Inr (Unmounted w) \<and>
      o_timers w = [] \<and> o_posted w = [] \<and> o_screenshots w = 0)"
proof -
  have r: "run [ClickScanFace] initial = Inr (scanFace_onClick initial)"
    by (simp add: initial_def scanFace_disabled_def)
  have t: "0 \<in> set (timers (scanFace_onClick initial))"
    by (simp add: initial_def handler_defs)
  have v: "screenshots (scanFace_onClick initial) = 0 \<and> posted (scanFace_onClick initial) = []"
    by (simp add: initial_def handler_defs)
  from teardown_before_expiry [OF r t,
      of "[Happens (TimeoutFires 0 (Some ''img'')), Happens ClickScanFace]"] r t v
  show ?thesis by simp
qed

subsection \<open>Capture failure\<close>

text \<open>
  Claim C3: when the timeout fires and no frame is available, the details read
  "Failed to capture image from webcam", no request is posted and the webcam is
  deactivated. The first two hold. The branch for a missing frame returns before
  \<open>setWebcamActive(false)\<close>, which only the end of \<open>analyzeFace\<close> reaches, so
  \<open>webcamActive\<close> is still set afterwards.
\<close>

theorem capture_failure_leaves_webcam_active:
  "map_sum id (\<lambda>s. (webcamActive s, loading s, details s, posted s, timers s))
     (run [ClickScanFace, TimeoutFires 0 None] initial)
   = Inr (True, False, Some ''Failed to capture image from webcam'', [], [])"
  by (simp add: initial_def handler_defs)

subsection \<open>One timeout per activation\<close>

text \<open>
  Claim C4: activating twice before the delay expires leaves exactly one timeout armed
  and leads to exactly one capture attempt. In every reachable state at most one timeout
  is pending; while one is pending the Scan Face button is disabled (the effect has set
  \<open>loading\<close>), so a click changes nothing; and from a state that is neither loading nor
  active, the first click arms one timeout, the second click is without effect, and
  the firing of that timeout takes one screenshot and leaves no timeout behind.
\<close>

theorem activate_twice_arms_once:
  assumes "run es initial = Inr s"
  shows "length (timers s) \<le> 1 \<and>
         (timers s \<noteq> [] \<longrightarrow> step ClickScanFace s = Inr s) \<and>
         (\<not> loading s \<and> \<not> webcamActive s \<longrightarrow>
            (\<exists>a h. step ClickScanFace s = Inr a \<and> step ClickScanFace a = Inr a \<and>
               webcamActive a \<and> timers a = [h] \<and>
               (\<forall>shot. \<exists>b. step (TimeoutFires h shot) a = Inr b \<and>
                  screenshots b = Suc (screenshots s) \<and> timers b = [])))"
proof -
  from assms have i: "invar s" by (rule reachable_inv)
  then have one: "length (timers s) \<le> 1"
    by (cases "timers s") (auto simp: invar_def)
  from i have armed: "timers s \<noteq> [] \<longrightarrow> step ClickScanFace s = Inr s"
    by (simp add: invar_def scanFace_disabled_def)
  have twice: "\<exists>a h. step ClickScanFace s = Inr a \<and> step ClickScanFace a = Inr a \<and>
               webcamActive a \<and> timers a = [h] \<and>
               (\<forall>shot. \<exists>b. step (TimeoutFires h shot) a = Inr b \<and>
                  screenshots b = Suc (screenshots s) \<and> timers b = [])"
    if idle: "\<not> loading s" "\<not> webcamActive s"
  proof -
    from i idle(1) have e: "timers s = [] \<and> inflight s = []" by (rule inv_idle)
    let ?a = "scanFace_onClick s"
    have a: "loading ?a" "webcamActive ?a" "timers ?a = [nextTimer s]"
      "screenshots ?a = screenshots s"
      using idle e
      by (simp_all add: scanFace_onClick_def rerender_def effect_body_def effect_cleanup_def
          clearTimeout_def setTimeout_def split: option.splits)
    have first: "step ClickScanFace s = Inr ?a"
      using idle by (simp add: scanFace_disabled_def)
    have second: "step ClickScanFace ?a = Inr ?a"
      using a by (simp add: scanFace_disabled_def)
    have fire: "\<exists>b. step (TimeoutFires (nextTimer s) shot) ?a = Inr b \<and>
                  screenshots b = Suc (screenshots s) \<and> timers b = []" for shot
      using a by (simp add: analyzeFace_def Let_def split: option.splits)
    from first second a fire show ?thesis by blast
  qed
  from one armed twice show ?thesis by blast
qed

theorem activate_twice_arms_once_witness:
  "run [] initial = Inr initial \<and> \<not> loading initial \<and> \<not> webcamActive initial \<and>
   step ClickScanFace initial = Inr (scanFace_onClick initial) \<and>
   step ClickScanFace (scanFace_onClick initial) = Inr (scanFace_onClick initial) \<and>
   length (timers (scanFace_onClick initial)) = 1 \<and>
   (\<exists>a h. step ClickScanFace initial = Inr a \<and> step ClickScanFace a = Inr a \<and>
      webcamActive a \<and> timers a = [h] \<and>
      (\<forall>shot. \<exists>b. step (TimeoutFires h shot) a = Inr b \<and>
         screenshots b = Suc (screenshots initial) \<and> timers b = []))"
proof -
  have r: "run [] initial = Inr initial" by simp
  have idle: "\<not> loading initial \<and> \<not> webcamActive initial" by (simp add: initial_def)
  have c: "step ClickScanFace initial = Inr (scanFace_onClick initial) \<and>
     step ClickScanFace (scanFace_onClick initial) = Inr (scanFace_onClick initial) \<and>
     length (timers (scanFace_onClick initial)) = 1"
    by (simp add: initial_def handler_defs)
  from activate_twice_arms_once [OF r] r idle c show ?thesis by blast
qed

subsection \<open>Failed requests\<close>

text \<open>
  Claim C5: when a classification request fails (no response, or a status outside
  200..299), the component leaves loading with \<open>emotion = "neutral"\<close>, no songs and the
  fixed diagnostic of the path, "Error occurred while analyzing text" or
  "Error occurred while analyzing face"; nothing is posted again and no timeout is left
  that could post later. In a reachable state a request in flight implies \<open>loading\<close>.
\<close>

theorem failed_request_gives_neutral:
  assumes "run es initial = Inr s" and "q \<in> set (inflight s)"
    and "r = NetworkError \<or> r = Response status d \<and> (status < 200 \<or> 300 \<le> status)"
  shows "loading s \<and>
         (\<exists>s'. step (Replies q r) s = Inr s' \<and> \<not> loading s' \<and>
            emotion s' = Some ''neutral'' \<and> songs s' = [] \<and>
            details s' =
              (case q of
                 TextEmotion t \<Rightarrow> Some ''Error occurred while analyzing text''
               | FaceEmotion i \<Rightarrow> Some ''Error occurred while analyzing face'') \<and>
            posted s' = posted s \<and> inflight s' = [] \<and> timers s' = [])"
proof -
  from assms(1) have i: "invar s" by (rule reachable_inv)
  from assms(3) have rej: "axios_post r = Inl AxiosError"
    by (auto simp: axios_post_def)
  from i assms(2) rej show ?thesis by (rule reply_rejected)
qed

theorem failed_request_gives_neutral_witness:
  "run [ChangeText ''sad'', ClickAnalyzeText] initial
     = Inr (analyzeText (initial\<lparr>text_st := ''sad''\<rparr>)) \<and>
   TextEmotion ''sad'' \<in> set (inflight (analyzeText (initial\<lparr>text_st := ''sad''\<rparr>))) \<and>
   loading (analyzeText (initial\<lparr>text_st := ''sad''\<rparr>)) \<and>
   (\<exists>s'. step (Replies (TextEmotion ''sad'') (Response 500 (JsonObject happy_data)))
            (analyzeText (initial\<lparr>text_st := ''sad''\<rparr>)) = Inr s' \<and>
      \<not> loading s' \<and> emotion s' = Some ''neutral'' \<and> songs s' = [] \<and>
      details s' = Some ''Error occurred while analyzing text'' \<and>
      posted s' = [TextEmotion ''sad''] \<and> inflight s' = [] \<and> timers s' = [])"
proof -
  have r: "run [ChangeText ''sad'', ClickAnalyzeText] initial
     = Inr (analyzeText (initial\<lparr>text_st := ''sad''\<rparr>))"
    by (simp add: initial_def analyzeText_disabled_def)
  have q: "TextEmotion ''sad'' \<in> set (inflight (analyzeText (initial\<lparr>text_st := ''sad''\<rparr>)))"
    by (simp add: initial_def analyzeText_def)
  have f: "Response 500 (JsonObject happy_data) = NetworkError \<or>
     Response 500 (JsonObject happy_data) = Response 500 (JsonObject happy_data) \<and> ((500::nat) < 200 \<or> 300 \<le> (500::nat))"
    by simp
  have p: "posted (analyzeText (initial\<lparr>text_st := ''sad''\<rparr>)) = [TextEmotion ''sad'']"
    by (simp add: initial_def analyzeText_def)
  from failed_request_gives_neutral [OF r q f] r q p show ?thesis by simp
qed

subsection \<open>Resolved requests\<close>

text \<open>
  Claim C6 says that every response with a status in 200..299 ends loading with
  \<open>emotion\<close>, \<open>details\<close> and \<open>songs\<close> taken from the body. The code reads the fields
  without looking at the body first: when the body is \<open>null\<close> the read of
  \<open>res.data.emotion\<close> throws inside the \<open>try\<close>, and the \<open>catch\<close> branch stores the
  fallback of a failed request.
\<close>

theorem null_body_counterexample:
  "map_sum id (\<lambda>s. (loading s, emotion s, songs s, details s))
     (run [ChangeText ''fine'', ClickAnalyzeText,
           Replies (TextEmotion ''fine'') (Response 200 JsonNull)] initial)
   = Inr (False, Some ''neutral'', [], Some ''Error occurred while analyzing text'')"
  by (simp add: initial_def handler_defs)

text \<open>
  Claim C6, amended: on a response with a status in 200..299 whose body is a JSON object,
  the component leaves loading with \<open>emotion\<close>, \<open>details\<close> and \<open>songs\<close> as read from the
  body (a field the body lacks is stored as \<open>undefined\<close>); a body without \<open>songs\<close>, or
  with an empty list, gives an empty song list and the body's emotion and details, not
  the fallback of the failure branch. On a response with such a status and no body,
  \<open>emotion\<close> and \<open>details\<close> are \<open>undefined\<close> and the song list is empty.
\<close>

theorem resolved_request_gives_result:
  assumes "run es initial = Inr s" and "q \<in> set (inflight s)"
    and "200 \<le> status" and "status < 300"
  shows "loading s \<and>
         (\<exists>s'. step (Replies q (Response status (JsonObject d))) s = Inr s' \<and> \<not> loading s' \<and>
            emotion s' = data_emotion d \<and> details s' = data_details d \<and>
            songs s' = (case data_songs d of None \<Rightarrow> [] | Some xs \<Rightarrow> xs) \<and>
            (data_songs d = None \<or> data_songs d = Some [] \<longrightarrow> songs s' = []) \<and>
            posted s' = posted s \<and> inflight s' = []) \<and>
         (\<exists>s'. step (Replies q (Response status NoBody)) s = Inr s' \<and> \<not> loading s' \<and>
            emotion s' = None \<and> details s' = None \<and> songs s' = [] \<and>
            posted s' = posted s \<and> inflight s' = [])"
proof -
  from assms(1) have i: "invar s" by (rule reachable_inv)
  have st: "loading s \<and> timers s = [] \<and>
         step (Replies q r) s =
           Inr (case q of
                  TextEmotion t \<Rightarrow> analyzeText_settled r (s\<lparr>inflight := []\<rparr>)
                | FaceEmotion i \<Rightarrow>
                    rerender (webcamActive s) (analyzeFace_settled r (s\<lparr>inflight := []\<rparr>)))" for r
    using i assms(2) by (rule reply_settles)
  from assms(3,4) have obj: "try_post (Response status (JsonObject d)) = Inr d"
    by (simp add: try_post_def axios_post_def response_data_def)
  from assms(3,4) have nob: "try_post (Response status NoBody)
      = Inr \<lparr>data_emotion = None, data_songs = None, data_details = None\<rparr>"
    by (simp add: try_post_def axios_post_def response_data_def)
  show ?thesis
  proof (cases q)
    case (TextEmotion t)
    with st [of "Response status (JsonObject d)"] st [of "Response status NoBody"] obj nob
    show ?thesis by (auto simp: analyzeText_settled_def)
  next
    case (FaceEmotion i)
    with st [of "Response status (JsonObject d)"] st [of "Response status NoBody"] obj nob
    show ?thesis
      by (auto simp: analyzeFace_settled_def rerender_def effect_body_def effect_cleanup_def
          clearTimeout_def split: option.splits)
  qed
qed

theorem resolved_request_gives_result_witness:
  "run [ChangeText ''fine'', ClickAnalyzeText] initial
     = Inr (analyzeText (initial\<lparr>text_st := ''fine''\<rparr>)) \<and>
   TextEmotion ''fine'' \<in> set (inflight (analyzeText (initial\<lparr>text_st := ''fine''\<rparr>))) \<and>
   (200::nat) \<le> 200 \<and> (200::nat) < 300 \<and>
   (\<exists>s'. step (Replies (TextEmotion ''fine'') (Response 200 (JsonObject bare_data)))
            (analyzeText (initial\<lparr>text_st := ''fine''\<rparr>)) = Inr s' \<and>
      \<not> loading s' \<and> emotion s' = Some ''calm'' \<and> details s' = Some ''Quiet'' \<and> songs s' = [])"
proof -
  have r: "run [ChangeText ''fine'', ClickAnalyzeText] initial
     = Inr (analyzeText (initial\<lparr>text_st := ''fine''\<rparr>))"
    by (simp add: initial_def analyzeText_disabled_def)
  have q: "TextEmotion ''fine'' \<in> set (inflight (analyzeText (initial\<lparr>text_st := ''fine''\<rparr>)))"
    by (simp add: initial_def analyzeText_def)
  have lo: "(200::nat) \<le> 200" and hi: "(200::nat) < 300" by simp_all
  from resolved_request_gives_result [OF r q lo hi, of bare_data] r q show ?thesis
    by (simp add: bare_data_def)
qed

subsection \<open>Deactivation after the request has been posted\<close>

text \<open>
  Claim C7 says that once the timeout has fired and the face request is in flight, a
  deactivation does not change the outcome: the call still completes and updates the
  session. The one deactivation the component allows at that point is its teardown, and
  then the reply finds no state to update: the same events end with the result of the
  reply in the session without the teardown, and with no session after it.
\<close>

theorem teardown_loses_reply_counterexample:
  "map_sum id session
     (life_run [Happens ClickScanFace, Happens (TimeoutFires 0 (Some ''img'')),
                Happens (Replies (FaceEmotion ''img'') (Response 200 (JsonObject happy_data)))]
        (Mounted initial))
     = Inr (Some (False, Some ''happy'', [song_A], Some ''Upbeat vibes'')) \<and>
   map_sum id session
     (life_run [Happens ClickScanFace, Happens (TimeoutFires 0 (Some ''img'')), Teardown,
                Happens (Replies (FaceEmotion ''img'') (Response 200 (JsonObject happy_data)))]
        (Mounted initial))
     = Inr None"
  by (simp add: initial_def handler_defs happy_data_def unmount_def)

text \<open>
  Claim C7, amended: in every reachable state with the face request in flight the
  component is loading, so the Scan Face button is disabled and a click before the reply
  changes nothing: the reply clears \<open>loading\<close>, turns \<open>webcamActive\<close> off and stores the
  fields read from the response, or the fallback when the request failed. A teardown
  does not cancel the request: the reply is still received, nothing is captured or posted
  again, and no state is updated, the component's state being discarded.
\<close>

theorem deactivate_after_dispatch:
  assumes "run es initial = Inr s" and "FaceEmotion i \<in> set (inflight s)"
  shows "loading s \<and> step ClickScanFace s = Inr s \<and>
         run [ClickScanFace, Replies (FaceEmotion i) r] s = run [Replies (FaceEmotion i) r] s \<and>
         (\<exists>s'. run [Replies (FaceEmotion i) r] s = Inr s' \<and> \<not> loading s' \<and>
            \<not> webcamActive s' \<and> inflight s' = [] \<and> posted s' = posted s \<and>
            (case try_post r of
               Inr d \<Rightarrow>
                 emotion s' = data_emotion d \<and> details s' = data_details d \<and>
                 songs s' = (case data_songs d of None \<Rightarrow> [] | Some xs \<Rightarrow> xs)
             | Inl e \<Rightarrow>
                 emotion s' = Some ''neutral'' \<and> songs s' = [] \<and>
                 details s' = Some ''Error occurred while analyzing face'')) \<and>
         (\<exists>w. life_run [Teardown, Happens (Replies (FaceEmotion i) r)] (Mounted s)
                 = Inr (Unmounted w) \<and>
            o_inflight w = [] \<and> o_timers w = [] \<and> o_posted w = posted s \<and>
            o_screenshots w = screenshots s)"
proof -
  from assms(1) have i: "invar s" by (rule reachable_inv)
  from i assms(2) have st: "loading s \<and> timers s = [] \<and>
         step (Replies (FaceEmotion i) r) s =
           Inr (case FaceEmotion i of
                  TextEmotion t \<Rightarrow> analyzeText_settled r (s\<lparr>inflight := []\<rparr>)
                | FaceEmotion i \<Rightarrow>
                    rerender (webcamActive s) (analyzeFace_settled r (s\<lparr>inflight := []\<rparr>)))"
    by (rule reply_settles)
  then have l: "loading s" and c: "step ClickScanFace s = Inr s"
    by (simp_all add: scanFace_disabled_def)
  from c have same: "run [ClickScanFace, Replies (FaceEmotion i) r] s
      = run [Replies (FaceEmotion i) r] s"
    by simp
  have out: "\<exists>s'. run [Replies (FaceEmotion i) r] s = Inr s' \<and> \<not> loading s' \<and>
            \<not> webcamActive s' \<and> inflight s' = [] \<and> posted s' = posted s \<and>
            (case try_post r of
               Inr d \<Rightarrow>
                 emotion s' = data_emotion d \<and> details s' = data_details d \<and>
                 songs s' = (case data_songs d of None \<Rightarrow> [] | Some xs \<Rightarrow> xs)
             | Inl e \<Rightarrow>
                 emotion s' = Some ''neutral'' \<and> songs s' = [] \<and>
                 details s' = Some ''Error occurred while analyzing face'')"
    using st
    by (cases "try_post r"; cases "timeout s")
       (simp_all add: analyzeFace_settled_def rerender_def effect_body_def effect_cleanup_def
          clearTimeout_def)
  from i assms(2) have one: "inflight s = [FaceEmotion i] \<and> loading s \<and> timers s = []"
    by (rule inv_awaiting)
  from i have u: "o_timers (unmount s) = [] \<and> o_inflight (unmount s) = inflight s \<and>
         o_posted (unmount s) = posted s \<and> o_screenshots (unmount s) = screenshots s"
    by (rule unmount_reachable)
  with one have gone: "\<exists>w. life_run [Teardown, Happens (Replies (FaceEmotion i) r)] (Mounted s)
                 = Inr (Unmounted w) \<and>
            o_inflight w = [] \<and> o_timers w = [] \<and> o_posted w = posted s \<and>
            o_screenshots w = screenshots s"
    by simp
  from l c same out gone show ?thesis by blast
qed

theorem deactivate_after_dispatch_witness:
  "run [ClickScanFace, TimeoutFires 0 (Some ''img'')] initial = Inr dispatched \<and>
   FaceEmotion ''img'' \<in> set (inflight dispatched) \<and>
   loading dispatched \<and> step ClickScanFace dispatched = Inr dispatched \<and>
   (\<exists>s'. run [ClickScanFace, Replies (FaceEmotion ''img'') (Response 200 (JsonObject happy_data))]
            dispatched = Inr s' \<and>
      \<not> loading s' \<and> \<not> webcamActive s' \<and> emotion s' = Some ''happy'' \<and>
      songs s' = [song_A] \<and> details s' = Some ''Upbeat vibes'') \<and>
   (\<exists>w. life_run [Teardown,
                   Happens (Replies (FaceEmotion ''img'') (Response 200 (JsonObject happy_data)))]
            (Mounted dispatched) = Inr (Unmounted w) \<and>
      o_inflight w = [] \<and> o_timers w = [] \<and> o_posted w = [FaceEmotion ''img''] \<and>
      o_screenshots w = 1)"
proof -
  have r: "run [ClickScanFace, TimeoutFires 0 (Some ''img'')] initial = Inr dispatched"
    by (simp add: dispatched_def initial_def handler_defs)
  have q: "FaceEmotion ''img'' \<in> set (inflight dispatched)"
    by (simp add: dispatched_def initial_def)
  have v: "try_post (Response 200 (JsonObject happy_data)) = Inr happy_data \<and>
     posted dispatched = [FaceEmotion ''img''] \<and> screenshots dispatched = 1"
    by (simp add: try_post_def axios_post_def response_data_def dispatched_def initial_def)
  have d: "data_emotion happy_data = Some ''happy'' \<and> data_songs happy_data = Some [song_A] \<and>
     data_details happy_data = Some ''Upbeat vibes''"
    by (simp add: happy_data_def)
  from deactivate_after_dispatch [OF r q, of "Response 200 (JsonObject happy_data)"] r q v d
  show ?thesis by auto
qed

subsection \<open>Empty text\<close>

text \<open>
  Claim C8: while the text is empty, or the component is loading, the Analyze Text button
  is disabled and a click leaves the state as it is; in no reachable state has a
  text request with an empty text been posted.
\<close>

theorem empty_text_never_analyzed:
  assumes "run es initial = Inr s"
  shows "TextEmotion [] \<notin> set (posted s) \<and>
         (text_st s = [] \<or> loading s \<longrightarrow>
            analyzeText_disabled s \<and> step ClickAnalyzeText s = Inr s)"
proof -
  from assms have "invar s" by (rule reachable_inv)
  then have "TextEmotion [] \<notin> set (posted s)" by (simp add: invar_def)
  then show ?thesis by (auto simp: analyzeText_disabled_def)
qed

theorem empty_text_never_analyzed_witness:
  "run [ChangeText ''x'', ChangeText [], ClickAnalyzeText] initial = Inr initial \<and>
   text_st initial = [] \<and> TextEmotion [] \<notin> set (posted initial) \<and>
   analyzeText_disabled initial \<and> step ClickAnalyzeText initial = Inr initial"
proof -
  have r: "run [ChangeText ''x'', ChangeText [], ClickAnalyzeText] initial = Inr initial"
    by (simp add: initial_def analyzeText_disabled_def)
  have e: "text_st initial = []" by (simp add: initial_def)
  from empty_text_never_analyzed [OF r] r e show ?thesis by simp
qed

subsection \<open>No exception leaves the handlers\<close>

text \<open>
  Claim C9: no failure of \<open>analyzeText\<close> or \<open>analyzeFace\<close> escapes as an exception.
  Every sequence of events from the initial state runs to a state without raising, and
  in that state every further event returns; a rejected request ends with the failure
  written to \<open>loading\<close>, \<open>emotion\<close>, \<open>songs\<close> and \<open>details\<close>, and so does a capture that
  yields no frame. (The only throw in the model, \<open>getScreenshot\<close> on a null ref, needs
  a timeout firing while \<open>webcamActive\<close> is off, which no reachable state allows.)
\<close>

theorem no_exception_escapes:
  "\<exists>s. run es initial = Inr s \<and>
     (\<forall>e. \<exists>s'. step e s = Inr s') \<and>
     (\<forall>q r. q \<in> set (inflight s) \<and> axios_post r = Inl AxiosError \<longrightarrow>
        (\<exists>s'. step (Replies q r) s = Inr s' \<and> \<not> loading s' \<and> emotion s' = Some ''neutral'' \<and>
           songs s' = [] \<and>
           details s' =
             (case q of
                TextEmotion t \<Rightarrow> Some ''Error occurred while analyzing text''
              | FaceEmotion i \<Rightarrow> Some ''Error occurred while analyzing face''))) \<and>
     (\<forall>h shot. h \<in> set (timers s) \<and> (shot = None \<or> shot = Some []) \<longrightarrow>
        (\<exists>s'. step (TimeoutFires h shot) s = Inr s' \<and> \<not> loading s' \<and> emotion s' = Some [] \<and>
           songs s' = [] \<and> details s' = Some ''Failed to capture image from webcam''))"
proof -
  obtain s where s: "run es initial = Inr s"
    using run_returns [OF inv_initial] by blast
  then have i: "invar s" by (rule reachable_inv)
  have total: "\<exists>s'. step e s = Inr s'" for e
    using i by (rule step_returns)
  have remote: "\<exists>s'. step (Replies q r) s = Inr s' \<and> \<not> loading s' \<and> emotion s' = Some ''neutral'' \<and>
           songs s' = [] \<and>
           details s' =
             (case q of
                TextEmotion t \<Rightarrow> Some ''Error occurred while analyzing text''
              | FaceEmotion i \<Rightarrow> Some ''Error occurred while analyzing face'')"
    if "q \<in> set (inflight s)" and rej: "axios_post r = Inl AxiosError" for q r
    using reply_rejected [OF i that] by blast
  have capture: "\<exists>s'. step (TimeoutFires h shot) s = Inr s' \<and> \<not> loading s' \<and> emotion s' = Some [] \<and>
           songs s' = [] \<and> details s' = Some ''Failed to capture image from webcam''"
    if "h \<in> set (timers s)" and "shot = None \<or> shot = Some []" for h shot
    using capture_fails [OF i that] by simp
  from s total remote capture show ?thesis by blast
qed

theorem no_exception_escapes_witness:
  "run [ClickScanFace] initial = Inr (scanFace_onClick initial) \<and>
   0 \<in> set (timers (scanFace_onClick initial)) \<and>
   (\<forall>e. \<exists>s'. step e (scanFace_onClick initial) = Inr s') \<and>
   (\<exists>s'. step (TimeoutFires 0 None) (scanFace_onClick initial) = Inr s' \<and> \<not> loading s' \<and>
      emotion s' = Some [] \<and> songs s' = [] \<and> details s' = Some ''Failed to capture image from webcam'') \<and>
   run [ChangeText ''sad'', ClickAnalyzeText] initial
     = Inr (analyzeText (initial\<lparr>text_st := ''sad''\<rparr>)) \<and>
   TextEmotion ''sad'' \<in> set (inflight (analyzeText (initial\<lparr>text_st := ''sad''\<rparr>))) \<and>
   axios_post NetworkError = Inl AxiosError \<and>
   (\<exists>s'. step (Replies (TextEmotion ''sad'') NetworkError)
            (analyzeText (initial\<lparr>text_st := ''sad''\<rparr>)) = Inr s' \<and>
      \<not> loading s' \<and> emotion s' = Some ''neutral'' \<and> songs s' = [] \<and>
      details s' = Some ''Error occurred while analyzing text'')"
proof -
  have r1: "run [ClickScanFace] initial = Inr (scanFace_onClick initial)"
    by (simp add: initial_def scanFace_disabled_def)
  have t1: "0 \<in> set (timers (scanFace_onClick initial))"
    by (simp add: initial_def handler_defs)
  have r2: "run [ChangeText ''sad'', ClickAnalyzeText] initial
     = Inr (analyzeText (initial\<lparr>text_st := ''sad''\<rparr>))"
    by (simp add: initial_def analyzeText_disabled_def)
  have q2: "TextEmotion ''sad'' \<in> set (inflight (analyzeText (initial\<lparr>text_st := ''sad''\<rparr>)))"
    by (simp add: initial_def analyzeText_def)
  have f2: "axios_post NetworkError = Inl AxiosError"
    by (simp add: axios_post_def)
  from no_exception_escapes [of "[ClickScanFace]"] r1 t1
  have a: "(\<forall>e. \<exists>s'. step e (scanFace_onClick initial) = Inr s') \<and>
     (\<exists>s'. step (TimeoutFires 0 None) (scanFace_onClick initial) = Inr s' \<and> \<not> loading s' \<and>
        emotion s' = Some [] \<and> songs s' = [] \<and> details s' = Some ''Failed to capture image from webcam'')"
    by auto
  from no_exception_escapes [of "[ChangeText ''sad'', ClickAnalyzeText]"] r2 q2 f2
  have b: "\<exists>s'. step (Replies (TextEmotion ''sad'') NetworkError)
            (analyzeText (initial\<lparr>text_st := ''sad''\<rparr>)) = Inr s' \<and>
      \<not> loading s' \<and> emotion s' = Some ''neutral'' \<and> songs s' = [] \<and>
      details s' = Some ''Error occurred while analyzing text''"
    by fastforce
  from r1 t1 a r2 q2 f2 b show ?thesis by blast
qed

subsection \<open>The state after a failed capture\<close>

text \<open>
  Claim C10: after a capture that yields no frame the emotion is the empty string, not
  the "neutral" of a failed request, the song list is empty and \<open>details\<close> carries
  "Failed to capture image from webcam"; the state differs from every state a failed
  request leaves.
\<close>

theorem capture_failure_state:
  assumes "run es initial = Inr s" and "h \<in> set (timers s)"
    and "shot = None \<or> shot = Some []"
  shows "\<exists>s'. step (TimeoutFires h shot) s = Inr s' \<and>
           emotion s' = Some [] \<and> emotion s' \<noteq> Some ''neutral'' \<and> songs s' = [] \<and>
           details s' = Some ''Failed to capture image from webcam'' \<and>
           (\<forall>r t. axios_post r = Inl AxiosError \<longrightarrow>
              emotion (analyzeFace_settled r t) = Some ''neutral'' \<and>
              emotion (analyzeText_settled r t) = Some ''neutral'' \<and>
              s' \<noteq> analyzeFace_settled r t \<and> s' \<noteq> analyzeText_settled r t)"
proof -
  from assms(1) have "invar s" by (rule reachable_inv)
  then have fired: "step (TimeoutFires h shot) s =
           Inr (s\<lparr>timers := [], loading := False, emotion := Some [], songs := [],
                  details := Some ''Failed to capture image from webcam'',
                  screenshots := Suc (screenshots s)\<rparr>)"
    using assms(2,3) by (rule capture_fails)
  define s' where "s' = s\<lparr>timers := [], loading := False, emotion := Some [], songs := [],
     details := Some ''Failed to capture image from webcam'', screenshots := Suc (screenshots s)\<rparr>"
  have st: "step (TimeoutFires h shot) s = Inr s'"
    using fired by (simp add: s'_def)
  have em: "emotion s' = Some []" "songs s' = []"
    "details s' = Some ''Failed to capture image from webcam''"
    by (simp_all add: s'_def)
  have neutral: "emotion (analyzeFace_settled r t) = Some ''neutral'' \<and>
      emotion (analyzeText_settled r t) = Some ''neutral''"
    if "axios_post r = Inl AxiosError" for r t
    using that by (simp add: analyzeFace_settled_def analyzeText_settled_def try_post_def)
  have differ: "s' \<noteq> analyzeFace_settled r t \<and> s' \<noteq> analyzeText_settled r t"
    if "axios_post r = Inl AxiosError" for r t
  proof -
    from neutral [OF that] em(1) have "emotion s' \<noteq> emotion (analyzeFace_settled r t)"
      and "emotion s' \<noteq> emotion (analyzeText_settled r t)" by simp_all
    then show ?thesis by auto
  qed
  from st em neutral differ show ?thesis by simp
qed

theorem capture_failure_state_witness:
  "run [ClickScanFace] initial = Inr (scanFace_onClick initial) \<and>
   0 \<in> set (timers (scanFace_onClick initial)) \<and>
   (\<exists>s'. step (TimeoutFires 0 (Some [])) (scanFace_onClick initial) = Inr s' \<and>
      emotion s' = Some [] \<and> emotion s' \<noteq> Some ''neutral'' \<and> songs s' = [] \<and>
      details s' = Some ''Failed to capture image from webcam'' \<and>
      emotion (analyzeFace_settled NetworkError s') = Some ''neutral'' \<and>
      s' \<noteq> analyzeFace_settled NetworkError s')"
proof -
  have r: "run [ClickScanFace] initial = Inr (scanFace_onClick initial)"
    by (simp add: initial_def scanFace_disabled_def)
  have t: "0 \<in> set (timers (scanFace_onClick initial))"
    by (simp add: initial_def handler_defs)
  have f: "axios_post NetworkError = Inl AxiosError"
    by (simp add: axios_post_def)
  have e: "Some [] = None \<or> Some ([]::string) = Some []" by simp
  from capture_failure_state [OF r t e] obtain s' where
    s': "step (TimeoutFires 0 (Some [])) (scanFace_onClick initial) = Inr s' \<and>
      emotion s' = Some [] \<and> emotion s' \<noteq> Some ''neutral'' \<and> songs s' = [] \<and>
      details s' = Some ''Failed to capture image from webcam'' \<and>
      (\<forall>r t. axios_post r = Inl AxiosError \<longrightarrow>
         emotion (analyzeFace_settled r t) = Some ''neutral'' \<and>
         emotion (analyzeText_settled r t) = Some ''neutral'' \<and>
         s' \<noteq> analyzeFace_settled r t \<and> s' \<noteq> analyzeText_settled r t)"
    by blast
  with f have "emotion (analyzeFace_settled NetworkError s') = Some ''neutral'' \<and>
      s' \<noteq> analyzeFace_settled NetworkError s'" by blast
  with s' r t show ?thesis by blast
qed

end
